theory Spec2Isabelle
  imports Complex_Main
begin

section \<open>The Newton controller (NewtonControllerBase)\<close>

text \<open>
  The C++ type \<open>Scalar\<close> is modelled by \<open>real\<close>: the properties below are about the
  mathematical value of the formulas, not about rounding. The C++ type \<open>int\<close> is modelled
  by \<open>int\<close>; the constructor, whose arguments are arbitrary, writes out the range of a
  32-bit \<open>int\<close> and the wrap-around of \<open>targetSteps + 3\<close>.
\<close>

datatype error = AssertionFailed | OutOfRange | DivisionByZero




text \<open>
  The value of a 32-bit two's-complement addition whose mathematical result is \<open>i\<close>: the
  compiled code wraps around where the sum leaves the range of \<open>int\<close>.
\<close>

definition wrapInt :: "int \<Rightarrow> int" where
  "wrapInt i = (i + 2147483648) mod 4294967296 - 2147483648"

record NewtonControllerBase =
  tolerance :: real
  maxPhysicalness :: real
  curPhysicalness :: real
  oneByMagnitude :: real
  probationCount :: int
  targetSteps :: int
  maxSteps :: int
  numSteps :: int

text \<open>
  The constructor. The first argument is the object before construction: the constructor
  does not write \<open>_probationCount\<close> and \<open>_oneByMagnitude\<close>, which keep whatever the
  memory held. The \<open>assert\<close> is taken as compiled in (no \<open>NDEBUG\<close>); when it fails,
  the result is \<open>Inl AssertionFailed\<close>. The sum \<open>targetSteps + 3\<close> of the assertion is
  the wrapped one.
\<close>

definition NewtonControllerBase ::
  "NewtonControllerBase \<Rightarrow> real \<Rightarrow> int \<Rightarrow> int \<Rightarrow> error + NewtonControllerBase" where
  "NewtonControllerBase this tol targetSteps' maxSteps' =
     (if \<not> (maxSteps' > wrapInt (targetSteps' + 3)) then Inl AssertionFailed
      else Inr (this\<lparr>numSteps := 0, tolerance := tol, targetSteps := targetSteps',
                      maxSteps := maxSteps', curPhysicalness := 0, maxPhysicalness := 0\<rparr>))"


text \<open>
  \<open>newtonConverged\<close>: the argument \<open>deflectionTwoNorm\<close> is the value of
  \<open>_method->deflectionTwoNorm()\<close>.
\<close>

definition newtonConverged :: "real \<Rightarrow> NewtonControllerBase \<Rightarrow> bool" where
  "newtonConverged deflectionTwoNorm c =
     (deflectionTwoNorm * oneByMagnitude c \<le> tolerance c \<and> curPhysicalness c \<ge> 1)"

text \<open>
  \<open>newtonProceed\<close>: \<open>physicalness\<close> is the value that \<open>_asImp()._physicalness(u)\<close>
  returns. The result is the returned flag and the controller after the call. The quotient
  \<open>((Scalar) _numSteps)/(_maxSteps - 1)\<close> is only computed when
  \<open>2 \<le> _numSteps \<le> _maxSteps\<close>, so its denominator is at least 1.
\<close>

definition newtonProceed ::
  "real \<Rightarrow> real \<Rightarrow> NewtonControllerBase \<Rightarrow> bool \<times> NewtonControllerBase" where
  "newtonProceed deflectionTwoNorm physicalness c =
     (if numSteps c < 2 then (True, c)
      else if numSteps c > maxSteps c then (False, c)
      else if newtonConverged deflectionTwoNorm c then (False, c)
      else
        let c1 = c\<lparr>curPhysicalness := min physicalness 1\<rparr> in
        if curPhysicalness c1 \<le> 0 then (False, c1)
        else if curPhysicalness c1 < real_of_int (numSteps c1) / real_of_int (maxSteps c1 - 1)
          then (False, c1)
        else if curPhysicalness c1 < maxPhysicalness c1 then
          (if probationCount c1 > 1 then (False, c1)
           else (True, c1\<lparr>probationCount := probationCount c1 + 1\<rparr>))
        else (True, c1\<lparr>maxPhysicalness := curPhysicalness c1,
                         probationCount := min 0 (probationCount c1 - 1)\<rparr>))"



definition newtonFail :: "NewtonControllerBase \<Rightarrow> NewtonControllerBase" where
  "newtonFail c = c\<lparr>numSteps := targetSteps c * 2\<rparr>"



text \<open>
  \<open>suggestTimeStepSize\<close>. Both quotients are quotients of \<open>Scalar\<close>s: the cast binds to
  \<open>_numSteps\<close> (respectively \<open>_targetSteps\<close>) and the other operands are converted.
  A division by zero gives an infinity or a NaN in the floating-point arithmetic of the
  source, which \<open>real\<close> does not have: it is the value \<open>Inl DivisionByZero\<close>.
\<close>

definition scalarDivide :: "real \<Rightarrow> real \<Rightarrow> error + real" where
  "scalarDivide x y = (if y = 0 then Inl DivisionByZero else Inr (x / y))"

definition suggestTimeStepSize :: "NewtonControllerBase \<Rightarrow> real \<Rightarrow> error + real" where
  "suggestTimeStepSize c oldTimeStep =
     (if numSteps c > targetSteps c then
        (case scalarDivide (real_of_int (numSteps c) - real_of_int (targetSteps c))
                     (real_of_int (targetSteps c)) of
           Inl e \<Rightarrow> Inl e
         | Inr percent \<Rightarrow> scalarDivide oldTimeStep (1 + percent))
      else
        (case scalarDivide (real_of_int (targetSteps c) - real_of_int (numSteps c))
                     (real_of_int (targetSteps c)) of
           Inl e \<Rightarrow> Inl e
         | Inr percent \<Rightarrow> Inr (oldTimeStep * (1 + percent / (12 / 10)))))"

section \<open>The intensive-quantity cache (FvBaseDiscretization)\<close>

text \<open>
  The two C arrays \<open>intensiveQuantityCache_[historySize]\<close> and
  \<open>intensiveQuantityCacheUpToDate_[historySize]\<close> are lists of vectors; \<open>historySize\<close>
  is the compile-time constant and the two run-time parameters are the switches
  \<open>EnableIntensiveQuantityCache\<close> and \<open>EnableThermodynamicHints\<close>. An index outside a
  vector or array (undefined behaviour in C++) is the value \<open>Inl OutOfRange\<close>. A returned
  null pointer is \<open>None\<close>.
\<close>

record 'iq FvBaseDiscretization =
  historySize :: int
  EnableIntensiveQuantityCache :: bool
  EnableThermodynamicHints :: bool
  intensiveQuantityCache :: "'iq list list"
  intensiveQuantityCacheUpToDate :: "bool list list"

definition inRange :: "'a list \<Rightarrow> int \<Rightarrow> bool" where
  "inRange xs i = (0 \<le> i \<and> i < int (length xs))"

definition elemAt :: "'a list \<Rightarrow> int \<Rightarrow> error + 'a" where
  "elemAt xs i = (if inRange xs i then Inr (xs ! nat i) else Inl OutOfRange)"

definition elemAt2 :: "'a list list \<Rightarrow> int \<Rightarrow> int \<Rightarrow> error + 'a" where
  "elemAt2 xss i j = (case elemAt xss i of Inl e \<Rightarrow> Inl e | Inr xs \<Rightarrow> elemAt xs j)"

definition assign :: "'a list \<Rightarrow> int \<Rightarrow> 'a \<Rightarrow> error + 'a list" where
  "assign xs i v = (if inRange xs i then Inr (xs[nat i := v]) else Inl OutOfRange)"

definition assign2 :: "'a list list \<Rightarrow> int \<Rightarrow> int \<Rightarrow> 'a \<Rightarrow> error + 'a list list" where
  "assign2 xss i j v =
     (case elemAt xss i of
        Inl e \<Rightarrow> Inl e
      | Inr xs \<Rightarrow> (case assign xs j v of Inl e \<Rightarrow> Inl e | Inr xs' \<Rightarrow> assign xss i xs'))"

text \<open>A counting loop \<open>for (i = ...; i < ...; ++i)\<close> whose body may fail.\<close>

fun forEach :: "('a \<Rightarrow> 's \<Rightarrow> error + 's) \<Rightarrow> 'a list \<Rightarrow> 's \<Rightarrow> error + 's" where
  "forEach body [] s = Inr s"
| "forEach body (i # is) s =
     (case body i s of Inl e \<Rightarrow> Inl e | Inr s' \<Rightarrow> forEach body is s')"

text \<open>
  The names of the source that end in an underscore are written without it
  (\<open>storeIntensiveQuantities_\<close> is \<open>storeIntensiveQuantities\<close>), as the members of the
  controller are written without their leading underscore.
\<close>

definition enableIntensiveQuantitiesCache :: "'iq FvBaseDiscretization \<Rightarrow> bool" where
  "enableIntensiveQuantitiesCache m = EnableIntensiveQuantityCache m"

definition enableThermodynamicHints :: "'iq FvBaseDiscretization \<Rightarrow> bool" where
  "enableThermodynamicHints m = EnableThermodynamicHints m"

definition storeIntensiveQuantities :: "'iq FvBaseDiscretization \<Rightarrow> bool" where
  "storeIntensiveQuantities m =
     (enableIntensiveQuantitiesCache m \<or> enableThermodynamicHints m)"

text \<open>The search of \<open>thermodynamicHint\<close> for the first up-to-date time index.\<close>

fun hintLoop :: "'iq FvBaseDiscretization \<Rightarrow> int \<Rightarrow> int list \<Rightarrow> error + 'iq option" where
  "hintLoop m globalIdx [] = Inr None"
| "hintLoop m globalIdx (timeIdx2 # rest) =
     (case elemAt2 (intensiveQuantityCacheUpToDate m) timeIdx2 globalIdx of
        Inl e \<Rightarrow> Inl e
      | Inr True \<Rightarrow>
          (case elemAt2 (intensiveQuantityCache m) timeIdx2 globalIdx of
             Inl e \<Rightarrow> Inl e
           | Inr v \<Rightarrow> Inr (Some v))
      | Inr False \<Rightarrow> hintLoop m globalIdx rest)"

definition thermodynamicHint ::
  "'iq FvBaseDiscretization \<Rightarrow> int \<Rightarrow> int \<Rightarrow> error + 'iq option" where
  "thermodynamicHint m globalIdx timeIdx =
     (if \<not> enableThermodynamicHints m then Inr None
      else
        case elemAt2 (intensiveQuantityCacheUpToDate m) timeIdx globalIdx of
          Inl e \<Rightarrow> Inl e
        | Inr True \<Rightarrow>
            (case elemAt2 (intensiveQuantityCache m) timeIdx globalIdx of
               Inl e \<Rightarrow> Inl e
             | Inr v \<Rightarrow> Inr (Some v))
        | Inr False \<Rightarrow> hintLoop m globalIdx [0 .. historySize m - 1])"

definition cachedIntensiveQuantities ::
  "'iq FvBaseDiscretization \<Rightarrow> int \<Rightarrow> int \<Rightarrow> error + 'iq option" where
  "cachedIntensiveQuantities m globalIdx timeIdx =
     (if \<not> enableIntensiveQuantitiesCache m then Inr None
      else
        case elemAt2 (intensiveQuantityCacheUpToDate m) timeIdx globalIdx of
          Inl e \<Rightarrow> Inl e
        | Inr False \<Rightarrow> Inr None
        | Inr True \<Rightarrow>
            (case elemAt2 (intensiveQuantityCache m) timeIdx globalIdx of
               Inl e \<Rightarrow> Inl e
             | Inr v \<Rightarrow> Inr (Some v)))"

definition updateCachedIntensiveQuantities ::
  "'iq FvBaseDiscretization \<Rightarrow> 'iq \<Rightarrow> int \<Rightarrow> int \<Rightarrow> error + 'iq FvBaseDiscretization" where
  "updateCachedIntensiveQuantities m intQuants globalIdx timeIdx =
     (if \<not> storeIntensiveQuantities m then Inr m
      else
        case assign2 (intensiveQuantityCache m) timeIdx globalIdx intQuants of
          Inl e \<Rightarrow> Inl e
        | Inr cache' \<Rightarrow>
            (case assign2 (intensiveQuantityCacheUpToDate m) timeIdx globalIdx True of
               Inl e \<Rightarrow> Inl e
             | Inr upToDate' \<Rightarrow>
                 Inr (m\<lparr>intensiveQuantityCache := cache',
                        intensiveQuantityCacheUpToDate := upToDate'\<rparr>)))"

definition setIntensiveQuantitiesCacheEntryValidity ::
  "'iq FvBaseDiscretization \<Rightarrow> int \<Rightarrow> int \<Rightarrow> bool \<Rightarrow> error + 'iq FvBaseDiscretization" where
  "setIntensiveQuantitiesCacheEntryValidity m globalIdx timeIdx newValue =
     (if \<not> storeIntensiveQuantities m then Inr m
      else
        case assign2 (intensiveQuantityCacheUpToDate m) timeIdx globalIdx newValue of
          Inl e \<Rightarrow> Inl e
        | Inr upToDate' \<Rightarrow> Inr (m\<lparr>intensiveQuantityCacheUpToDate := upToDate'\<rparr>))"

text \<open>
  The body of the loop of \<open>shiftIntensiveQuantityCache\<close>: two whole-vector assignments.
  The loop runs \<open>timeIdx\<close> upwards from 0, as the source does.
\<close>

definition shiftStep ::
  "int \<Rightarrow> int \<Rightarrow> 'iq FvBaseDiscretization \<Rightarrow> error + 'iq FvBaseDiscretization" where
  "shiftStep numSlots timeIdx m =
     (case elemAt (intensiveQuantityCache m) timeIdx of
        Inl e \<Rightarrow> Inl e
      | Inr values \<Rightarrow>
     (case assign (intensiveQuantityCache m) (timeIdx + numSlots) values of
        Inl e \<Rightarrow> Inl e
      | Inr cache' \<Rightarrow>
     (case elemAt (intensiveQuantityCacheUpToDate m) timeIdx of
        Inl e \<Rightarrow> Inl e
      | Inr flags \<Rightarrow>
     (case assign (intensiveQuantityCacheUpToDate m) (timeIdx + numSlots) flags of
        Inl e \<Rightarrow> Inl e
      | Inr upToDate' \<Rightarrow>
          Inr (m\<lparr>intensiveQuantityCache := cache',
                 intensiveQuantityCacheUpToDate := upToDate'\<rparr>)))))"

definition shiftIntensiveQuantityCache ::
  "'iq FvBaseDiscretization \<Rightarrow> int \<Rightarrow> error + 'iq FvBaseDiscretization" where
  "shiftIntensiveQuantityCache m numSlots =
     (if \<not> storeIntensiveQuantities m then Inr m
      else
        case forEach (shiftStep numSlots) [0 .. historySize m - numSlots - 1] m of
          Inl e \<Rightarrow> Inl e
        | Inr m1 \<Rightarrow>
            (case elemAt (intensiveQuantityCacheUpToDate m1) 0 of
               Inl e \<Rightarrow> Inl e
             | Inr flags \<Rightarrow>
                 Inr (m1\<lparr>intensiveQuantityCacheUpToDate :=
                          (intensiveQuantityCacheUpToDate m1)
                            [0 := replicate (length flags) False]\<rparr>)))"

text \<open>
  \<open>std::vector::resize\<close>: the vector is cut or filled up with value-initialised elements
  (\<open>dflt\<close>).
\<close>

definition resize :: "'a list \<Rightarrow> nat \<Rightarrow> 'a \<Rightarrow> 'a list" where
  "resize xs n dflt = take n xs @ replicate (n - length xs) dflt"

definition resizeStep ::
  "nat \<Rightarrow> 'iq \<Rightarrow> int \<Rightarrow> 'iq FvBaseDiscretization \<Rightarrow> error + 'iq FvBaseDiscretization" where
  "resizeStep nDofs dflt timeIdx m =
     (case elemAt (intensiveQuantityCache m) timeIdx of
        Inl e \<Rightarrow> Inl e
      | Inr values \<Rightarrow>
     (case elemAt (intensiveQuantityCacheUpToDate m) timeIdx of
        Inl e \<Rightarrow> Inl e
      | Inr flags \<Rightarrow>
          Inr (m\<lparr>intensiveQuantityCache :=
                   (intensiveQuantityCache m)[nat timeIdx := resize values nDofs dflt],
                 intensiveQuantityCacheUpToDate :=
                   (intensiveQuantityCacheUpToDate m)
                     [nat timeIdx := replicate (length (resize flags nDofs False)) False]\<rparr>)))"

text \<open>
  \<open>resizeAndResetIntensiveQuantitiesCache_\<close>: \<open>nDofs\<close> is the value of
  \<open>asImp_().numGridDof()\<close>, a number of degrees of freedom, and \<open>dflt\<close> a
  value-initialised \<open>IntensiveQuantities\<close> object.
\<close>

definition resizeAndResetIntensiveQuantitiesCache ::
  "'iq FvBaseDiscretization \<Rightarrow> nat \<Rightarrow> 'iq \<Rightarrow> error + 'iq FvBaseDiscretization" where
  "resizeAndResetIntensiveQuantitiesCache m nDofs dflt =
     (if storeIntensiveQuantities m
      then forEach (resizeStep nDofs dflt) [0 .. historySize m - 1] m
      else Inr m)"

text \<open>
  The arrays of a discretization object have \<open>historySize\<close> entries, and \<open>historySize\<close>
  is positive (an array type has at least one element).
\<close>

definition wellFormed :: "'iq FvBaseDiscretization \<Rightarrow> bool" where
  "wellFormed m =
     (0 < historySize m
      \<and> int (length (intensiveQuantityCache m)) = historySize m
      \<and> int (length (intensiveQuantityCacheUpToDate m)) = historySize m)"

text \<open>The entry \<open>[timeIdx][globalIdx]\<close> exists in both arrays.\<close>

definition entryInRange :: "'iq FvBaseDiscretization \<Rightarrow> int \<Rightarrow> int \<Rightarrow> bool" where
  "entryInRange m globalIdx timeIdx =
     (inRange (intensiveQuantityCache m) timeIdx
      \<and> inRange (intensiveQuantityCacheUpToDate m) timeIdx
      \<and> inRange (intensiveQuantityCache m ! nat timeIdx) globalIdx
      \<and> inRange (intensiveQuantityCacheUpToDate m ! nat timeIdx) globalIdx)"

text \<open>Two discretization objects with the same configuration.\<close>

definition sameConfig :: "'iq FvBaseDiscretization \<Rightarrow> 'iq FvBaseDiscretization \<Rightarrow> bool" where
  "sameConfig m m' =
     (historySize m' = historySize m
      \<and> EnableIntensiveQuantityCache m' = EnableIntensiveQuantityCache m
      \<and> EnableThermodynamicHints m' = EnableThermodynamicHints m)"

section \<open>Residual assembly (FvBaseDiscretization::globalResidual)\<close>

text \<open>
  An element as the element loop sees it: its partition type, the global space index of
  each primary degree of freedom (\<open>elemCtx.globalSpaceIndex(dofIdx, 0)\<close> for
  \<open>dofIdx < numPrimaryDof\<close>) and the local residual that the injected evaluator
  \<open>localResidual(threadId).eval\<close> computes for it, one block of \<open>numEq\<close> values per
  degree of freedom. The global vector \<open>dest\<close> is a list of blocks of \<open>numEq\<close> values.
  The elements are visited one after the other: the threads of the source only change the
  order, and each addition happens under the lock.
\<close>

datatype PartitionType =
  InteriorEntity | BorderEntity | OverlapEntity | FrontEntity | GhostEntity

record Element =
  partitionType :: PartitionType
  globalSpaceIndex :: "int list"
  residual :: "real list list"

definition numPrimaryDof :: "Element \<Rightarrow> int" where
  "numPrimaryDof elem = int (length (globalSpaceIndex elem))"

text \<open>The loop over \<open>eqIdx\<close>: \<open>dest[globalI][eqIdx] += residual[dofIdx][eqIdx]\<close>.\<close>

definition addBlock :: "nat \<Rightarrow> real list \<Rightarrow> real list \<Rightarrow> real list" where
  "addBlock numEq d r = map (\<lambda>eqIdx. d ! eqIdx + r ! eqIdx) [0 ..< numEq]"

definition addDof :: "nat \<Rightarrow> Element \<Rightarrow> int \<Rightarrow> real list list \<Rightarrow> error + real list list" where
  "addDof numEq elem dofIdx dest =
     (case elemAt (globalSpaceIndex elem) dofIdx of
        Inl e \<Rightarrow> Inl e
      | Inr globalI \<Rightarrow>
     (case elemAt (residual elem) dofIdx of
        Inl e \<Rightarrow> Inl e
      | Inr r \<Rightarrow>
     (case elemAt dest globalI of
        Inl e \<Rightarrow> Inl e
      | Inr d \<Rightarrow> assign dest globalI (addBlock numEq d r))))"

definition addElement :: "nat \<Rightarrow> Element \<Rightarrow> real list list \<Rightarrow> error + real list list" where
  "addElement numEq elem dest =
     (if partitionType elem \<noteq> InteriorEntity then Inr dest
      else forEach (addDof numEq elem) [0 .. numPrimaryDof elem - 1] dest)"

text \<open>\<open>dest = 0\<close>: every entry of every block becomes 0, the sizes stay.\<close>

definition assignZero :: "real list list \<Rightarrow> real list list" where
  "assignZero dest = map (map (\<lambda>x. 0)) dest"

text \<open>The first part of \<open>globalResidual(dest)\<close>: zeroing and the element loop.\<close>

definition assembleResidual ::
  "nat \<Rightarrow> Element list \<Rightarrow> real list list \<Rightarrow> error + real list list" where
  "assembleResidual numEq elems dest = forEach (addElement numEq) elems (assignZero dest)"

text \<open>
  The spec's additive accumulation of the owned elements' local residual contributions: the
  sum of the local residual entries that the interior elements hold for the degree of
  freedom \<open>globalI\<close> and the equation \<open>eqIdx\<close>. The element loop is compared with it.
\<close>

definition dofContribution :: "Element \<Rightarrow> int \<Rightarrow> nat \<Rightarrow> int \<Rightarrow> real" where
  "dofContribution elem globalI eqIdx dofIdx =
     (if globalSpaceIndex elem ! nat dofIdx = globalI
      then residual elem ! nat dofIdx ! eqIdx else 0)"

definition elementContribution :: "Element \<Rightarrow> int \<Rightarrow> nat \<Rightarrow> real" where
  "elementContribution elem globalI eqIdx =
     (if partitionType elem \<noteq> InteriorEntity then 0
      else sum_list (map (dofContribution elem globalI eqIdx) [0 .. numPrimaryDof elem - 1]))"

definition contributions :: "Element list \<Rightarrow> int \<Rightarrow> nat \<Rightarrow> real" where
  "contributions elems globalI eqIdx =
     sum_list (map (\<lambda>elem. elementContribution elem globalI eqIdx) elems)"

text \<open>
  What the element loop needs of an element it evaluates: the local residual has a block
  of \<open>numEq\<close> values for every primary degree of freedom, and the global space indices
  are indices of \<open>dest\<close>.
\<close>

definition wellFormedElement :: "nat \<Rightarrow> nat \<Rightarrow> Element \<Rightarrow> bool" where
  "wellFormedElement numEq numDof elem =
     (length (globalSpaceIndex elem) \<le> length (residual elem)
      \<and> list_all (\<lambda>r. length r = numEq) (residual elem)
      \<and> list_all (\<lambda>globalI. 0 \<le> globalI \<and> globalI < int numDof) (globalSpaceIndex elem))"

definition wellFormedElements :: "nat \<Rightarrow> nat \<Rightarrow> Element list \<Rightarrow> bool" where
  "wellFormedElements numEq numDof elems =
     list_all (\<lambda>elem. partitionType elem \<noteq> InteriorEntity \<or> wellFormedElement numEq numDof elem)
       elems"

text \<open>
  The shape of a block vector, and the relation between the vector before and after some
  additions: the sizes are the same and every entry has grown by \<open>f\<close>.
\<close>

definition blocks :: "nat \<Rightarrow> real list list \<Rightarrow> bool" where
  "blocks numEq v = list_all (\<lambda>b. length b = numEq) v"

definition accumulated ::
  "nat \<Rightarrow> real list list \<Rightarrow> real list list \<Rightarrow> (int \<Rightarrow> nat \<Rightarrow> real) \<Rightarrow> bool" where
  "accumulated numEq d d' f =
     (length d' = length d \<and> blocks numEq d'
      \<and> (\<forall>i < length d. \<forall>eqIdx < numEq. d' ! i ! eqIdx = d ! i ! eqIdx + f (int i) eqIdx))"

subsection \<open>The processes of a parallel run\<close>

text \<open>
  A process holds its elements and the vector that it passes as \<open>dest\<close>
  (\<open>destVector\<close>). \<open>borderId\<close> tells, for each local degree of freedom, whether its
  entity lies on the border between processes (\<open>InteriorBorder_InteriorBorder_Interface\<close>)
  and names the shared entity.
\<close>

record Process =
  elements :: "Element list"
  destVector :: "real list list"
  borderId :: "nat option list"

text \<open>
  Modelled from the spec: the sum handle of \<open>GridCommHandleFactory\<close> and the grid's
  \<open>communicate\<close> are not among the sources. The spec says that global values are reduced
  across domain-decomposition boundaries by summing the contributions for any degree of
  freedom that is shared between partitions: every process adds, to each of its border
  entries, the entries that the other processes hold for the same shared entity.
\<close>

definition borderValues :: "nat \<Rightarrow> nat option list \<times> real list list \<Rightarrow> real list list" where
  "borderValues g q = map snd (filter (\<lambda>(b, v). b = Some g) (zip (fst q) (snd q)))"

definition received ::
  "(nat option list \<times> real list list) list \<Rightarrow> nat \<Rightarrow> nat \<Rightarrow> real list list" where
  "received ps p g =
     concat (map (\<lambda>q. if q = p then [] else borderValues g (ps ! q)) [0 ..< length ps])"

definition communicateSum ::
  "nat \<Rightarrow> (nat option list \<times> real list list) list \<Rightarrow> real list list list" where
  "communicateSum numEq ps =
     map (\<lambda>p. map (\<lambda>(b, v). case b of
                              None \<Rightarrow> v
                            | Some g \<Rightarrow> fold (\<lambda>r d. addBlock numEq d r) (received ps p g) v)
                  (zip (fst (ps ! p)) (snd (ps ! p))))
       [0 ..< length ps]"

text \<open>\<open>two_norm2\<close> of a block vector: the sum of the squares of all its entries.\<close>

definition two_norm2 :: "real list list \<Rightarrow> real" where
  "two_norm2 v = sum_list (map (\<lambda>b. sum_list (map (\<lambda>x. x * x) b)) v)"

fun onEachProcess :: "('a \<Rightarrow> error + 'b) \<Rightarrow> 'a list \<Rightarrow> error + 'b list" where
  "onEachProcess f [] = Inr []"
| "onEachProcess f (p # ps) =
     (case f p of
        Inl e \<Rightarrow> Inl e
      | Inr y \<Rightarrow> (case onEachProcess f ps of Inl e \<Rightarrow> Inl e | Inr ys \<Rightarrow> Inr (y # ys)))"

text \<open>
  \<open>globalResidual(dest)\<close>, run by all processes: the result is the output vector of each
  process and the returned scalar, which is the same on every process since
  \<open>comm().sum\<close> gives every process the sum over all of them.
\<close>

definition globalResidual ::
  "nat \<Rightarrow> Process list \<Rightarrow> error + (real list list list \<times> real)" where
  "globalResidual numEq procs =
     (case onEachProcess (\<lambda>p. assembleResidual numEq (elements p) (destVector p)) procs of
        Inl e \<Rightarrow> Inl e
      | Inr dests \<Rightarrow>
          let summed = communicateSum numEq (zip (map borderId procs) dests);
              result2 = sum_list (map two_norm2 summed)
          in Inr (summed, sqrt result2))"

section \<open>Concrete inputs\<close>

text \<open>
  A controller object with the default configuration and a step count of five, a maximal
  physicalness of 0.9 and a current physicalness of 0.5.
\<close>

definition sampleController :: NewtonControllerBase where
  "sampleController =
     \<lparr>tolerance = 1 / 100000, maxPhysicalness = 9 / 10, curPhysicalness = 1 / 2,
      oneByMagnitude = 1, probationCount = 0, targetSteps = 8, maxSteps = 12, numSteps = 5\<rparr>"




text \<open>The controller that the constructor builds for \<open>targetSteps = -1\<close>, \<open>maxSteps = 3\<close>.\<close>

definition negativeTarget :: NewtonControllerBase where
  "negativeTarget =
     \<lparr>tolerance = 1 / 100000, maxPhysicalness = 0, curPhysicalness = 0,
      oneByMagnitude = 1, probationCount = 0, targetSteps = - 1, maxSteps = 3, numSteps = 0\<rparr>"

text \<open>
  A discretization with hints but without the cache, one degree of freedom; and one with
  both switches on, six degrees of freedom, whose previous time index holds valid values.
\<close>

definition hintsOnly :: "nat FvBaseDiscretization" where
  "hintsOnly =
     \<lparr>historySize = 2, EnableIntensiveQuantityCache = False, EnableThermodynamicHints = True,
      intensiveQuantityCache = [[0], [0]],
      intensiveQuantityCacheUpToDate = [[False], [False]]\<rparr>"

definition sampleCache :: "nat FvBaseDiscretization" where
  "sampleCache =
     \<lparr>historySize = 2, EnableIntensiveQuantityCache = True, EnableThermodynamicHints = True,
      intensiveQuantityCache = [[0, 0, 0, 0, 0, 0], [1, 2, 3, 4, 5, 6]],
      intensiveQuantityCacheUpToDate =
        [[False, False, False, False, False, False], [True, True, True, True, True, True]]\<rparr>"

text \<open>
  A one-dimensional grid of two elements and three vertices with one equation and one degree
  of freedom per vertex. The first element contributes 2 and 1 to its vertices, the second
  1 and 1. In the run on two processes each process owns one element, sees the other one
  as a ghost, and the middle vertex lies on the border; \<open>dest\<close> holds 5 everywhere
  before the call.
\<close>

definition firstElement :: "PartitionType \<Rightarrow> Element" where
  "firstElement pt = \<lparr>partitionType = pt, globalSpaceIndex = [0, 1], residual = [[2], [1]]\<rparr>"

definition secondElement :: "PartitionType \<Rightarrow> Element" where
  "secondElement pt = \<lparr>partitionType = pt, globalSpaceIndex = [1, 2], residual = [[1], [1]]\<rparr>"

definition onePartition :: "Process list" where
  "onePartition =
     [\<lparr>elements = [firstElement InteriorEntity, secondElement InteriorEntity],
       destVector = [[5], [5], [5]], borderId = [None, None, None]\<rparr>]"

definition twoPartitions :: "Process list" where
  "twoPartitions =
     [\<lparr>elements = [firstElement InteriorEntity, secondElement GhostEntity],
       destVector = [[5], [5], [5]], borderId = [None, Some 1, None]\<rparr>,
      \<lparr>elements = [firstElement GhostEntity, secondElement InteriorEntity],
       destVector = [[5], [5], [5]], borderId = [None, Some 1, None]\<rparr>]"

section \<open>Properties of the controller\<close>

text \<open>
  C5: \<open>newtonConverged\<close> is true if and only if the scaled defect is at most the tolerance
  and the current physicalness is at least 1; so it is never true while the current
  physicalness is below 1, and then the defect plays no part in what \<open>newtonProceed\<close>
  decides.
\<close>

theorem newtonConverged_iff:
  "(newtonConverged d c \<longleftrightarrow> d * oneByMagnitude c \<le> tolerance c \<and> curPhysicalness c \<ge> 1)
   \<and> (curPhysicalness c < 1 \<longrightarrow> \<not> newtonConverged d c)
   \<and> (curPhysicalness c < 1 \<longrightarrow> newtonProceed d p c = newtonProceed d' p c)"
  by (simp add: newtonConverged_def newtonProceed_def)

theorem newtonConverged_iff_witness:
  "curPhysicalness sampleController < 1 \<and> \<not> newtonConverged 0 sampleController
   \<and> newtonProceed 0 (1 / 2) sampleController = newtonProceed 1 (1 / 2) sampleController"
  using newtonConverged_iff [of 0 sampleController "1 / 2" 1]
  by (simp add: sampleController_def)





text \<open>
  C2, as the code has it: with \<open>targetSteps = 8\<close> and three steps done,
  \<open>suggestTimeStepSize(100)\<close> returns \<open>100 * (1 + (8 - 3)/8/1.2)\<close>, which is
  \<open>1825/12\<close>, about 152.08.
\<close>

theorem suggestTimeStepSize_default:
  assumes "targetSteps c = 8" and "numSteps c = 3"
  shows "suggestTimeStepSize c 100 = Inr (100 * (1 + ((8 - 3) / 8) / (12 / 10)))
         \<and> suggestTimeStepSize c 100 = Inr (1825 / 12)
         \<and> (152 :: real) < 1825 / 12 \<and> (1825 / 12 :: real) < 153"
  using assms by (simp add: suggestTimeStepSize_def scalarDivide_def)

theorem suggestTimeStepSize_default_witness:
  "suggestTimeStepSize (sampleController\<lparr>numSteps := 3\<rparr>) 100 = Inr (1825 / 12)"
  using suggestTimeStepSize_default [of "sampleController\<lparr>numSteps := 3\<rparr>"]
  by (simp add: sampleController_def)

text \<open>
  C2, as the spec has it: the returned value is not within 11 of 141.
\<close>

theorem suggestTimeStepSize_default_counterexample:
  "suggestTimeStepSize (sampleController\<lparr>numSteps := 3\<rparr>) 100 = Inr (1825 / 12)
   \<and> \<not> (\<bar>1825 / 12 - 141\<bar> \<le> (11 :: real))"
  by (simp add: suggestTimeStepSize_def scalarDivide_def sampleController_def)

text \<open>
  C6, for a positive target: for every positive previous step size the suggestion is
  greater when fewer steps than the target were needed, smaller when more were needed, and
  the previous size itself when the step count equals the target.
\<close>

theorem suggestTimeStepSize_monotone:
  assumes "0 < targetSteps c" and "0 < oldTimeStep"
  shows "(numSteps c < targetSteps c \<longrightarrow>
            (\<exists>t. suggestTimeStepSize c oldTimeStep = Inr t \<and> oldTimeStep < t))
       \<and> (numSteps c > targetSteps c \<longrightarrow>
            (\<exists>t. suggestTimeStepSize c oldTimeStep = Inr t \<and> t < oldTimeStep))
       \<and> (numSteps c = targetSteps c \<longrightarrow> suggestTimeStepSize c oldTimeStep = Inr oldTimeStep)"
proof (intro conjI impI)
  assume less: "numSteps c < targetSteps c"
  define percent where
    "percent = (real_of_int (targetSteps c) - real_of_int (numSteps c))
                 / real_of_int (targetSteps c)"
  have "0 < percent"
    using assms(1) less by (simp add: percent_def)
  then have "1 < 1 + percent / (12 / 10)" by simp
  then have "oldTimeStep * 1 < oldTimeStep * (1 + percent / (12 / 10))"
    using assms(2) by (simp only: mult_less_cancel_left_pos)
  moreover have "suggestTimeStepSize c oldTimeStep = Inr (oldTimeStep * (1 + percent / (12 / 10)))"
    using assms(1) less by (simp add: suggestTimeStepSize_def scalarDivide_def percent_def)
  ultimately show "\<exists>t. suggestTimeStepSize c oldTimeStep = Inr t \<and> oldTimeStep < t"
    by simp
next
  assume more: "numSteps c > targetSteps c"
  define percent where
    "percent = (real_of_int (numSteps c) - real_of_int (targetSteps c))
                 / real_of_int (targetSteps c)"
  have pos: "0 < percent"
    using assms(1) more by (simp add: percent_def)
  then have "oldTimeStep / (1 + percent) < oldTimeStep"
    using assms(2) by (simp add: field_simps)
  moreover have "1 + percent \<noteq> 0"
    using pos by simp
  then have "suggestTimeStepSize c oldTimeStep = Inr (oldTimeStep / (1 + percent))"
    unfolding percent_def using assms(1) more
    by (simp add: suggestTimeStepSize_def scalarDivide_def)
  ultimately show "\<exists>t. suggestTimeStepSize c oldTimeStep = Inr t \<and> t < oldTimeStep"
    by simp
next
  assume "numSteps c = targetSteps c"
  then show "suggestTimeStepSize c oldTimeStep = Inr oldTimeStep"
    using assms(1) by (simp add: suggestTimeStepSize_def scalarDivide_def)
qed

theorem suggestTimeStepSize_monotone_witness:
  "(\<exists>t. suggestTimeStepSize (sampleController\<lparr>numSteps := 3\<rparr>) 100 = Inr t \<and> 100 < t)
   \<and> (\<exists>t. suggestTimeStepSize (sampleController\<lparr>numSteps := 16\<rparr>) 100 = Inr t \<and> t < 100)
   \<and> suggestTimeStepSize (sampleController\<lparr>numSteps := 8\<rparr>) 100 = Inr 100"
  using suggestTimeStepSize_monotone [of "sampleController\<lparr>numSteps := 3\<rparr>" 100]
        suggestTimeStepSize_monotone [of "sampleController\<lparr>numSteps := 16\<rparr>" 100]
        suggestTimeStepSize_monotone [of "sampleController\<lparr>numSteps := 8\<rparr>" 100]
  by (simp add: sampleController_def)

text \<open>
  C6 without the positive target: a controller built with \<open>targetSteps = -1\<close> and
  \<open>maxSteps = 3\<close> passes the constructor's assertion; after \<open>newtonFail\<close> its step
  count \<open>-2\<close> is below the target, and the suggestion for 100 is \<open>50/3\<close>, which is
  smaller.
\<close>

theorem suggestTimeStepSize_monotone_counterexample:
  "NewtonControllerBase sampleController (1 / 100000) (- 1) 3 = Inr negativeTarget
   \<and> numSteps (newtonFail negativeTarget) < targetSteps (newtonFail negativeTarget)
   \<and> suggestTimeStepSize (newtonFail negativeTarget) 100 = Inr (50 / 3)
   \<and> \<not> (100 < (50 / 3 :: real))"
  by (simp add: NewtonControllerBase_def wrapInt_def sampleController_def
      negativeTarget_def newtonFail_def suggestTimeStepSize_def scalarDivide_def)











section \<open>Properties of the cache\<close>

lemma elemAt_inRange: "inRange xs i \<Longrightarrow> elemAt xs i = Inr (xs ! nat i)"
  by (simp add: elemAt_def)

lemma assign_inRange: "inRange xs i \<Longrightarrow> assign xs i v = Inr (xs[nat i := v])"
  by (simp add: assign_def)

lemma inRange_update: "inRange (xs[k := v]) i = inRange xs i"
  by (simp add: inRange_def)

lemma inRange_nat: "inRange xs i \<Longrightarrow> nat i < length xs"
  by (auto simp add: inRange_def)

lemma elemAt2_inRange:
  "inRange xss i \<Longrightarrow> inRange (xss ! nat i) j \<Longrightarrow> elemAt2 xss i j = Inr (xss ! nat i ! nat j)"
  by (simp add: elemAt2_def elemAt_inRange)

lemma assign2_inRange:
  "inRange xss i \<Longrightarrow> inRange (xss ! nat i) j \<Longrightarrow>
   assign2 xss i j v = Inr (xss[nat i := (xss ! nat i)[nat j := v]])"
  by (simp add: assign2_def elemAt_inRange assign_inRange)

lemma nth_update2:
  "inRange xss i \<Longrightarrow> inRange (xss ! nat i) j \<Longrightarrow>
   xss[nat i := (xss ! nat i)[nat j := v]] ! nat i ! nat j = v"
  by (simp add: inRange_nat)

lemma update_stores:
  assumes "storeIntensiveQuantities m" and "entryInRange m g t"
  shows "updateCachedIntensiveQuantities m v g t =
           Inr (m\<lparr>intensiveQuantityCache :=
                    (intensiveQuantityCache m)[nat t := (intensiveQuantityCache m ! nat t)[nat g := v]],
                  intensiveQuantityCacheUpToDate :=
                    (intensiveQuantityCacheUpToDate m)
                      [nat t := (intensiveQuantityCacheUpToDate m ! nat t)[nat g := True]]\<rparr>)"
  using assms
  by (simp add: updateCachedIntensiveQuantities_def entryInRange_def assign2_inRange)

lemma setValidity_stores:
  assumes "storeIntensiveQuantities m" and "entryInRange m g t"
  shows "setIntensiveQuantitiesCacheEntryValidity m g t b =
           Inr (m\<lparr>intensiveQuantityCacheUpToDate :=
                    (intensiveQuantityCacheUpToDate m)
                      [nat t := (intensiveQuantityCacheUpToDate m ! nat t)[nat g := b]]\<rparr>)"
  using assms
  by (simp add: setIntensiveQuantitiesCacheEntryValidity_def entryInRange_def assign2_inRange)

text \<open>
  C4, as the code has it: \<open>updateCachedIntensiveQuantities\<close> leaves everything as it is
  when neither the cache nor the hints are enabled; when one of the two switches is on, it
  stores the value at an existing entry and marks the entry up to date, so that the entry
  reads back the value, is a hit of \<open>cachedIntensiveQuantities\<close> when the cache is on,
  and the state has changed if the entry was stale before.
\<close>

theorem updateCachedIntensiveQuantities_stores:
  "(\<not> storeIntensiveQuantities m \<longrightarrow> updateCachedIntensiveQuantities m v g t = Inr m)
   \<and> (storeIntensiveQuantities m \<and> entryInRange m g t \<longrightarrow>
        (\<exists>m'. updateCachedIntensiveQuantities m v g t = Inr m'
           \<and> elemAt2 (intensiveQuantityCache m') t g = Inr v
           \<and> elemAt2 (intensiveQuantityCacheUpToDate m') t g = Inr True
           \<and> (enableIntensiveQuantitiesCache m \<longrightarrow>
                cachedIntensiveQuantities m' g t = Inr (Some v))
           \<and> (elemAt2 (intensiveQuantityCacheUpToDate m) t g = Inr False \<longrightarrow> m' \<noteq> m)))"
proof (intro conjI impI)
  assume "\<not> storeIntensiveQuantities m"
  then show "updateCachedIntensiveQuantities m v g t = Inr m"
    by (simp add: updateCachedIntensiveQuantities_def)
next
  assume a: "storeIntensiveQuantities m \<and> entryInRange m g t"
  define m' where
    "m' = m\<lparr>intensiveQuantityCache :=
               (intensiveQuantityCache m)[nat t := (intensiveQuantityCache m ! nat t)[nat g := v]],
             intensiveQuantityCacheUpToDate :=
               (intensiveQuantityCacheUpToDate m)
                 [nat t := (intensiveQuantityCacheUpToDate m ! nat t)[nat g := True]]\<rparr>"
  have upd: "updateCachedIntensiveQuantities m v g t = Inr m'"
    using a update_stores [of m g t v] by (simp add: m'_def)
  have r: "entryInRange m' g t"
    using a by (simp add: m'_def entryInRange_def inRange_update inRange_nat)
  have val: "elemAt2 (intensiveQuantityCache m') t g = Inr v"
    using a r by (simp add: elemAt2_inRange entryInRange_def m'_def nth_update2)
  have flag: "elemAt2 (intensiveQuantityCacheUpToDate m') t g = Inr True"
    using a r by (simp add: elemAt2_inRange entryInRange_def m'_def nth_update2)
  have hit: "enableIntensiveQuantitiesCache m \<longrightarrow> cachedIntensiveQuantities m' g t = Inr (Some v)"
    using val flag
    by (simp add: cachedIntensiveQuantities_def enableIntensiveQuantitiesCache_def m'_def)
  have changed: "elemAt2 (intensiveQuantityCacheUpToDate m) t g = Inr False \<longrightarrow> m' \<noteq> m"
    using flag by auto
  show "\<exists>m'. updateCachedIntensiveQuantities m v g t = Inr m'
           \<and> elemAt2 (intensiveQuantityCache m') t g = Inr v
           \<and> elemAt2 (intensiveQuantityCacheUpToDate m') t g = Inr True
           \<and> (enableIntensiveQuantitiesCache m \<longrightarrow>
                cachedIntensiveQuantities m' g t = Inr (Some v))
           \<and> (elemAt2 (intensiveQuantityCacheUpToDate m) t g = Inr False \<longrightarrow> m' \<noteq> m)"
    using upd val flag hit changed by blast
qed

theorem updateCachedIntensiveQuantities_stores_witness:
  "updateCachedIntensiveQuantities
     (hintsOnly\<lparr>EnableThermodynamicHints := False\<rparr>) 7 0 0
     = Inr (hintsOnly\<lparr>EnableThermodynamicHints := False\<rparr>)
   \<and> (\<exists>m'. updateCachedIntensiveQuantities sampleCache 7 5 0 = Inr m'
         \<and> elemAt2 (intensiveQuantityCache m') 0 5 = Inr 7
         \<and> elemAt2 (intensiveQuantityCacheUpToDate m') 0 5 = Inr True
         \<and> cachedIntensiveQuantities m' 5 0 = Inr (Some 7)
         \<and> m' \<noteq> sampleCache)"
proof -
  have off: "\<not> storeIntensiveQuantities (hintsOnly\<lparr>EnableThermodynamicHints := False\<rparr>)"
    by (simp add: hintsOnly_def storeIntensiveQuantities_def
        enableIntensiveQuantitiesCache_def enableThermodynamicHints_def)
  have on: "storeIntensiveQuantities sampleCache \<and> entryInRange sampleCache 5 0"
    by (simp add: sampleCache_def storeIntensiveQuantities_def
        enableIntensiveQuantitiesCache_def entryInRange_def inRange_def)
  have cache: "enableIntensiveQuantitiesCache sampleCache"
    by (simp add: sampleCache_def enableIntensiveQuantitiesCache_def)
  have stale: "elemAt2 (intensiveQuantityCacheUpToDate sampleCache) 0 5 = Inr False"
    by (simp add: sampleCache_def elemAt2_def elemAt_def inRange_def)
  show ?thesis
    using off on cache stale
      updateCachedIntensiveQuantities_stores
        [where m = "hintsOnly\<lparr>EnableThermodynamicHints := False\<rparr>" and v = 7 and g = 0 and t = 0]
      updateCachedIntensiveQuantities_stores
        [where m = sampleCache and v = 7 and g = 5 and t = 0]
    by blast
qed


text \<open>
  C4, as the spec has it: with the cache switched off and the hints switched on, the update
  is not a no-op, it stores 7 and marks the entry up to date.
\<close>

theorem updateCachedIntensiveQuantities_stores_counterexample:
  "\<not> enableIntensiveQuantitiesCache hintsOnly
   \<and> updateCachedIntensiveQuantities hintsOnly 7 0 0
       = Inr (hintsOnly\<lparr>intensiveQuantityCache := [[7], [0]],
                        intensiveQuantityCacheUpToDate := [[True], [False]]\<rparr>)
   \<and> hintsOnly\<lparr>intensiveQuantityCache := [[7], [0]],
                 intensiveQuantityCacheUpToDate := [[True], [False]]\<rparr> \<noteq> hintsOnly"
  by (simp add: hintsOnly_def updateCachedIntensiveQuantities_def storeIntensiveQuantities_def
      enableIntensiveQuantitiesCache_def enableThermodynamicHints_def assign2_def assign_def
      elemAt_def inRange_def)

lemma upto_two: "2 \<le> h \<Longrightarrow> [0 .. h - 1] = 0 # 1 # [2 .. h - 1]"
  by (simp add: upto_rec1)

lemma elemAt_update:
  "inRange xs i \<Longrightarrow> elemAt (xs[nat i := v]) i' = (if i' = i then Inr v else elemAt xs i')"
  by (auto simp add: elemAt_def inRange_def nth_list_update)

lemma elemAt2_update2:
  assumes "inRange xss i" and "inRange (xss ! nat i) j"
  shows "elemAt2 (xss[nat i := (xss ! nat i)[nat j := v]]) i' j'
           = (if i' = i \<and> j' = j then Inr v else elemAt2 xss i' j')"
proof (cases "i' = i")
  case True
  then show ?thesis
    using assms by (simp add: elemAt2_def elemAt_update elemAt_inRange)
next
  case False
  then show ?thesis
    using assms by (simp add: elemAt2_def elemAt_update)
qed

text \<open>
  C8: with the cache and the hints enabled, at least two time indices and an existing
  degree of freedom: after an update of the entry at time index 0 with \<open>V\<close>,
  \<open>cachedIntensiveQuantities\<close> returns \<open>V\<close> for it; after the entry is then marked
  invalid, \<open>cachedIntensiveQuantities\<close> returns null for it, while
  \<open>thermodynamicHint\<close> returns the value held at time index 1 whenever that entry is up
  to date.
\<close>

theorem cache_update_invalidate_hint:
  assumes cache: "enableIntensiveQuantitiesCache m" and hints: "enableThermodynamicHints m"
    and two: "2 \<le> historySize m"
    and r0: "entryInRange m g 0" and r1: "entryInRange m g 1"
  shows "\<exists>m1 m2.
           updateCachedIntensiveQuantities m V g 0 = Inr m1
           \<and> cachedIntensiveQuantities m1 g 0 = Inr (Some V)
           \<and> setIntensiveQuantitiesCacheEntryValidity m1 g 0 False = Inr m2
           \<and> cachedIntensiveQuantities m2 g 0 = Inr None
           \<and> (elemAt2 (intensiveQuantityCacheUpToDate m) 1 g = Inr True \<longrightarrow>
                thermodynamicHint m2 g 0 = Inr (Some (intensiveQuantityCache m ! 1 ! nat g)))"
proof -
  define m1 where
    "m1 = m\<lparr>intensiveQuantityCache :=
               (intensiveQuantityCache m)[nat 0 := (intensiveQuantityCache m ! nat 0)[nat g := V]],
             intensiveQuantityCacheUpToDate :=
               (intensiveQuantityCacheUpToDate m)
                 [nat 0 := (intensiveQuantityCacheUpToDate m ! nat 0)[nat g := True]]\<rparr>"
  define m2 where
    "m2 = m1\<lparr>intensiveQuantityCacheUpToDate :=
               (intensiveQuantityCacheUpToDate m1)
                 [nat 0 := (intensiveQuantityCacheUpToDate m1 ! nat 0)[nat g := False]]\<rparr>"
  have store: "storeIntensiveQuantities m"
    using cache by (simp add: storeIntensiveQuantities_def)
  have config1: "enableIntensiveQuantitiesCache m1" "storeIntensiveQuantities m1"
    using cache
    by (simp_all add: m1_def storeIntensiveQuantities_def enableIntensiveQuantitiesCache_def)
  have config2: "enableIntensiveQuantitiesCache m2" "enableThermodynamicHints m2"
    "historySize m2 = historySize m"
    using cache hints
    by (simp_all add: m2_def m1_def enableIntensiveQuantitiesCache_def
        enableThermodynamicHints_def)
  have values1: "elemAt2 (intensiveQuantityCache m1) t' g'
      = (if t' = 0 \<and> g' = g then Inr V else elemAt2 (intensiveQuantityCache m) t' g')"
    for t' g'
  proof -
    have "intensiveQuantityCache m1
        = (intensiveQuantityCache m)[nat 0 := (intensiveQuantityCache m ! nat 0)[nat g := V]]"
      by (simp add: m1_def)
    then show ?thesis
      using r0 elemAt2_update2 [of "intensiveQuantityCache m" 0 g V t' g']
      by (simp only: entryInRange_def)
  qed
  have flags1: "elemAt2 (intensiveQuantityCacheUpToDate m1) t' g'
      = (if t' = 0 \<and> g' = g then Inr True else elemAt2 (intensiveQuantityCacheUpToDate m) t' g')"
    for t' g'
  proof -
    have "intensiveQuantityCacheUpToDate m1
        = (intensiveQuantityCacheUpToDate m)
            [nat 0 := (intensiveQuantityCacheUpToDate m ! nat 0)[nat g := True]]"
      by (simp add: m1_def)
    then show ?thesis
      using r0 elemAt2_update2 [of "intensiveQuantityCacheUpToDate m" 0 g True t' g']
      by (simp only: entryInRange_def)
  qed
  have r0': "entryInRange m1 g 0"
    using r0 by (simp add: m1_def entryInRange_def inRange_def)
  have flags2: "elemAt2 (intensiveQuantityCacheUpToDate m2) t' g'
      = (if t' = 0 \<and> g' = g then Inr False else elemAt2 (intensiveQuantityCacheUpToDate m1) t' g')"
    for t' g'
  proof -
    have "intensiveQuantityCacheUpToDate m2
        = (intensiveQuantityCacheUpToDate m1)
            [nat 0 := (intensiveQuantityCacheUpToDate m1 ! nat 0)[nat g := False]]"
      by (simp add: m2_def)
    then show ?thesis
      using r0' elemAt2_update2 [of "intensiveQuantityCacheUpToDate m1" 0 g False t' g']
      by (simp only: entryInRange_def)
  qed
  have values2: "intensiveQuantityCache m2 = intensiveQuantityCache m1"
    by (simp add: m2_def)
  have upd: "updateCachedIntensiveQuantities m V g 0 = Inr m1"
    using update_stores [OF store r0] by (simp only: m1_def)
  have inv: "setIntensiveQuantitiesCacheEntryValidity m1 g 0 False = Inr m2"
    using setValidity_stores [OF config1(2) r0'] by (simp only: m2_def)
  have hit: "cachedIntensiveQuantities m1 g 0 = Inr (Some V)"
    using config1(1) by (simp add: cachedIntensiveQuantities_def flags1 values1)
  have miss: "cachedIntensiveQuantities m2 g 0 = Inr None"
    using config2(1) by (simp add: cachedIntensiveQuantities_def flags2)
  have previous: "elemAt2 (intensiveQuantityCache m) 1 g = Inr (intensiveQuantityCache m ! 1 ! nat g)"
    using r1 elemAt2_inRange [of "intensiveQuantityCache m" 1 g] by (simp add: entryInRange_def)
  have hint: "elemAt2 (intensiveQuantityCacheUpToDate m) 1 g = Inr True \<longrightarrow>
                thermodynamicHint m2 g 0 = Inr (Some (intensiveQuantityCache m ! 1 ! nat g))"
    using config2(2) two previous
    by (simp add: thermodynamicHint_def config2(3) upto_two flags2 flags1 values2 values1)
  show ?thesis
    using upd hit inv miss hint by blast
qed

theorem cache_update_invalidate_hint_witness:
  "\<exists>m1 m2.
     updateCachedIntensiveQuantities sampleCache 7 5 0 = Inr m1
     \<and> cachedIntensiveQuantities m1 5 0 = Inr (Some 7)
     \<and> setIntensiveQuantitiesCacheEntryValidity m1 5 0 False = Inr m2
     \<and> cachedIntensiveQuantities m2 5 0 = Inr None
     \<and> thermodynamicHint m2 5 0 = Inr (Some 6)"
proof -
  have "enableIntensiveQuantitiesCache sampleCache"
    and "enableThermodynamicHints sampleCache"
    and "2 \<le> historySize sampleCache"
    and "entryInRange sampleCache 5 0" and "entryInRange sampleCache 5 1"
    and "elemAt2 (intensiveQuantityCacheUpToDate sampleCache) 1 5 = Inr True"
    and "intensiveQuantityCache sampleCache ! 1 ! nat 5 = 6"
    by (simp_all add: sampleCache_def enableIntensiveQuantitiesCache_def
        enableThermodynamicHints_def entryInRange_def inRange_def elemAt2_def elemAt_def
        eval_nat_numeral)
  then show ?thesis
    using cache_update_invalidate_hint [where m = sampleCache and g = 5 and V = 7]
    by auto
qed

text \<open>
  What \<open>shiftIntensiveQuantityCache(1)\<close> does to the arrays: with two time indices the
  content of index 0 moves to index 1; with three, the loop runs upwards, so that index 2
  receives what index 1 has just received.
\<close>

lemma shift_two_slots:
  assumes "storeIntensiveQuantities m" and "historySize m = 2"
    and "intensiveQuantityCache m = [values0, values1]"
    and "intensiveQuantityCacheUpToDate m = [flags0, flags1]"
  shows "shiftIntensiveQuantityCache m 1
           = Inr (m\<lparr>intensiveQuantityCache := [values0, values0],
                    intensiveQuantityCacheUpToDate :=
                      [replicate (length flags0) False, flags0]\<rparr>)"
  using assms
  by (simp add: shiftIntensiveQuantityCache_def shiftStep_def elemAt_def assign_def inRange_def)

lemma shift_three_slots:
  assumes "storeIntensiveQuantities m" and "historySize m = 3"
    and "intensiveQuantityCache m = [values0, values1, values2]"
    and "intensiveQuantityCacheUpToDate m = [flags0, flags1, flags2]"
  shows "shiftIntensiveQuantityCache m 1
           = Inr (m\<lparr>intensiveQuantityCache := [values0, values0, values0],
                    intensiveQuantityCacheUpToDate :=
                      [replicate (length flags0) False, flags0, flags0]\<rparr>)"
  using assms
  by (simp add: shiftIntensiveQuantityCache_def shiftStep_def elemAt_def assign_def inRange_def
      upto_rec1)

lemma shiftStep_wellFormed:
  assumes "wellFormed m" and "0 \<le> t" and "t + 1 < historySize m"
  shows "\<exists>m'. shiftStep 1 t m = Inr m' \<and> wellFormed m' \<and> sameConfig m m'"
proof -
  have "inRange (intensiveQuantityCache m) t" "inRange (intensiveQuantityCache m) (t + 1)"
    "inRange (intensiveQuantityCacheUpToDate m) t"
    "inRange (intensiveQuantityCacheUpToDate m) (t + 1)"
    using assms by (simp_all add: wellFormed_def inRange_def)
  then show ?thesis
    using assms(1)
    by (simp add: shiftStep_def elemAt_inRange assign_inRange wellFormed_def sameConfig_def)
qed

lemma forEach_shiftStep:
  assumes "wellFormed m" and "\<forall>t \<in> set ts. 0 \<le> t \<and> t + 1 < historySize m"
  shows "\<exists>m'. forEach (shiftStep 1) ts m = Inr m' \<and> wellFormed m' \<and> sameConfig m m'"
  using assms
proof (induction ts arbitrary: m)
  case Nil
  then show ?case by (simp add: sameConfig_def)
next
  case (Cons t ts)
  then obtain m1 where m1: "shiftStep 1 t m = Inr m1" "wellFormed m1" "sameConfig m m1"
    using shiftStep_wellFormed [of m t] by auto
  then have "\<forall>t \<in> set ts. 0 \<le> t \<and> t + 1 < historySize m1"
    using Cons.prems(2) by (simp add: sameConfig_def)
  then obtain m' where "forEach (shiftStep 1) ts m1 = Inr m'" "wellFormed m'" "sameConfig m1 m'"
    using Cons.IH [OF m1(2)] by auto
  then show ?case
    using m1 by (auto simp add: sameConfig_def)
qed

lemma shiftIntensiveQuantityCache_wellFormed:
  assumes "wellFormed m"
  shows "\<exists>m'. shiftIntensiveQuantityCache m 1 = Inr m' \<and> wellFormed m' \<and> sameConfig m m'"
proof (cases "storeIntensiveQuantities m")
  case False
  then show ?thesis
    using assms by (simp add: shiftIntensiveQuantityCache_def sameConfig_def)
next
  case True
  have "\<forall>t \<in> set [0 .. historySize m - 1 - 1]. 0 \<le> t \<and> t + 1 < historySize m"
    by auto
  then obtain m1 where m1: "forEach (shiftStep 1) [0 .. historySize m - 1 - 1] m = Inr m1"
    "wellFormed m1" "sameConfig m m1"
    using forEach_shiftStep [OF assms] by blast
  have "inRange (intensiveQuantityCacheUpToDate m1) 0"
    using m1(2) by (simp add: wellFormed_def inRange_def)
  then show ?thesis
    using True m1
    by (simp add: shiftIntensiveQuantityCache_def elemAt_inRange wellFormed_def sameConfig_def)
qed

lemma length_resize: "length (resize xs n dflt) = n"
  by (simp add: resize_def)

lemma resizeStep_wellFormed:
  assumes "wellFormed m" and "0 \<le> t" and "t < historySize m"
  shows "\<exists>m'. resizeStep n dflt t m = Inr m' \<and> wellFormed m' \<and> sameConfig m m'
           \<and> intensiveQuantityCacheUpToDate m'
               = (intensiveQuantityCacheUpToDate m)[nat t := replicate n False]"
proof -
  have "inRange (intensiveQuantityCache m) t" "inRange (intensiveQuantityCacheUpToDate m) t"
    using assms by (simp_all add: wellFormed_def inRange_def)
  then show ?thesis
    using assms(1)
    by (simp add: resizeStep_def elemAt_inRange wellFormed_def sameConfig_def length_resize)
qed

lemma forEach_resizeStep:
  assumes "wellFormed m" and "\<forall>t \<in> set ts. 0 \<le> t \<and> t < historySize m"
  shows "\<exists>m'. forEach (resizeStep n dflt) ts m = Inr m' \<and> wellFormed m' \<and> sameConfig m m'
           \<and> (\<forall>k. 0 \<le> k \<and> k < historySize m
                  \<and> (k \<in> set ts \<or> intensiveQuantityCacheUpToDate m ! nat k = replicate n False)
                \<longrightarrow> intensiveQuantityCacheUpToDate m' ! nat k = replicate n False)"
  using assms
proof (induction ts arbitrary: m)
  case Nil
  then show ?case by (simp add: sameConfig_def)
next
  case (Cons t ts)
  then obtain m1 where m1: "resizeStep n dflt t m = Inr m1" "wellFormed m1" "sameConfig m m1"
    "intensiveQuantityCacheUpToDate m1
       = (intensiveQuantityCacheUpToDate m)[nat t := replicate n False]"
    using resizeStep_wellFormed [of m t n dflt] by auto
  have hs: "historySize m1 = historySize m"
    using m1(3) by (simp add: sameConfig_def)
  have "\<forall>t \<in> set ts. 0 \<le> t \<and> t < historySize m1"
    using Cons.prems(2) hs by simp
  then obtain m' where m': "forEach (resizeStep n dflt) ts m1 = Inr m'" "wellFormed m'"
    "sameConfig m1 m'"
    "\<forall>k. 0 \<le> k \<and> k < historySize m1
          \<and> (k \<in> set ts \<or> intensiveQuantityCacheUpToDate m1 ! nat k = replicate n False)
        \<longrightarrow> intensiveQuantityCacheUpToDate m' ! nat k = replicate n False"
    using Cons.IH [OF m1(2)] by blast
  have step: "intensiveQuantityCacheUpToDate m1 ! nat k = replicate n False"
    if "0 \<le> k" "k < historySize m"
      "k = t \<or> intensiveQuantityCacheUpToDate m ! nat k = replicate n False" for k
  proof -
    have "nat k < length (intensiveQuantityCacheUpToDate m)"
      using that(1,2) Cons.prems(1) by (auto simp add: wellFormed_def)
    then show ?thesis
      using that(3) by (cases "nat t = nat k") (auto simp add: m1(4))
  qed
  have "intensiveQuantityCacheUpToDate m' ! nat k = replicate n False"
    if "0 \<le> k \<and> k < historySize m
        \<and> (k \<in> set (t # ts) \<or> intensiveQuantityCacheUpToDate m ! nat k = replicate n False)" for k
    using that m'(4) step [of k] hs by auto
  then show ?case
    using m1 m' by (auto simp add: sameConfig_def)
qed

lemma resize_wellFormed:
  assumes "wellFormed m" and "storeIntensiveQuantities m"
  shows "\<exists>m'. resizeAndResetIntensiveQuantitiesCache m n dflt = Inr m' \<and> wellFormed m'
           \<and> sameConfig m m'
           \<and> (\<forall>k. 0 \<le> k \<and> k < historySize m
                \<longrightarrow> intensiveQuantityCacheUpToDate m' ! nat k = replicate n False)"
proof -
  have "\<forall>t \<in> set [0 .. historySize m - 1]. 0 \<le> t \<and> t < historySize m"
    by auto
  then obtain m' where m': "forEach (resizeStep n dflt) [0 .. historySize m - 1] m = Inr m'"
    "wellFormed m'" "sameConfig m m'"
    "\<forall>k. 0 \<le> k \<and> k < historySize m
          \<and> (k \<in> set [0 .. historySize m - 1]
             \<or> intensiveQuantityCacheUpToDate m ! nat k = replicate n False)
        \<longrightarrow> intensiveQuantityCacheUpToDate m' ! nat k = replicate n False"
    using forEach_resizeStep [OF assms(1), of "[0 .. historySize m - 1]" n dflt] by blast
  then show ?thesis
    using assms(2) by (auto simp add: resizeAndResetIntensiveQuantitiesCache_def)
qed

lemma miss_of_stale_slots:
  assumes "wellFormed m"
    and "\<forall>k. 0 \<le> k \<and> k < historySize m
           \<longrightarrow> intensiveQuantityCacheUpToDate m ! nat k = replicate n False"
  shows "cachedIntensiveQuantities m g t \<noteq> Inr (Some v)"
    and "0 \<le> t \<and> t < historySize m \<and> 0 \<le> g \<and> g < int n
         \<longrightarrow> cachedIntensiveQuantities m g t = Inr None"
proof -
  have flags: "elemAt2 (intensiveQuantityCacheUpToDate m) t g
      = (if 0 \<le> t \<and> t < historySize m \<and> 0 \<le> g \<and> g < int n then Inr False else Inl OutOfRange)"
    using assms by (auto simp add: elemAt2_def elemAt_def inRange_def wellFormed_def)
  show "cachedIntensiveQuantities m g t \<noteq> Inr (Some v)"
    by (simp add: cachedIntensiveQuantities_def flags)
  show "0 \<le> t \<and> t < historySize m \<and> 0 \<le> g \<and> g < int n
         \<longrightarrow> cachedIntensiveQuantities m g t = Inr None"
    by (simp add: cachedIntensiveQuantities_def flags)
qed

text \<open>
  C7: for every discretization object and every number \<open>n\<close> of degrees of freedom,
  \<open>shiftIntensiveQuantityCache(1)\<close> followed by
  \<open>resizeAndResetIntensiveQuantitiesCache_\<close> succeeds, and afterwards
  \<open>cachedIntensiveQuantities\<close> returns null for every time index and every degree of
  freedom below \<open>n\<close>; it returns a cached value for no index at all.
\<close>

theorem shift_then_resize_invalidates:
  assumes "wellFormed m"
  shows "\<exists>m1 m2.
           shiftIntensiveQuantityCache m 1 = Inr m1
           \<and> resizeAndResetIntensiveQuantitiesCache m1 n dflt = Inr m2
           \<and> (\<forall>t g. 0 \<le> t \<and> t < historySize m \<and> 0 \<le> g \<and> g < int n
                \<longrightarrow> cachedIntensiveQuantities m2 g t = Inr None)
           \<and> (\<forall>t g v. cachedIntensiveQuantities m2 g t \<noteq> Inr (Some v))"
proof -
  obtain m1 where m1: "shiftIntensiveQuantityCache m 1 = Inr m1" "wellFormed m1"
    "sameConfig m m1"
    using shiftIntensiveQuantityCache_wellFormed [OF assms] by blast
  have hs: "historySize m1 = historySize m"
    using m1(3) by (simp add: sameConfig_def)
  show ?thesis
  proof (cases "storeIntensiveQuantities m1")
    case True
    then obtain m2 where m2: "resizeAndResetIntensiveQuantitiesCache m1 n dflt = Inr m2"
      "wellFormed m2" "sameConfig m1 m2"
      "\<forall>k. 0 \<le> k \<and> k < historySize m1
          \<longrightarrow> intensiveQuantityCacheUpToDate m2 ! nat k = replicate n False"
      using resize_wellFormed [OF m1(2)] by blast
    have hs2: "historySize m2 = historySize m"
      using m2(3) hs by (simp add: sameConfig_def)
    have stale: "\<forall>k. 0 \<le> k \<and> k < historySize m2
          \<longrightarrow> intensiveQuantityCacheUpToDate m2 ! nat k = replicate n False"
      using m2(4) hs hs2 by simp
    show ?thesis
      using m1(1) m2(1) miss_of_stale_slots [OF m2(2) stale] hs2 by auto
  next
    case False
    then have "resizeAndResetIntensiveQuantitiesCache m1 n dflt = Inr m1"
      by (simp add: resizeAndResetIntensiveQuantitiesCache_def)
    moreover have "cachedIntensiveQuantities m1 g t = Inr None" for g t
      using False by (simp add: cachedIntensiveQuantities_def storeIntensiveQuantities_def)
    ultimately show ?thesis
      using m1(1) by auto
  qed
qed

theorem shift_then_resize_invalidates_witness:
  "\<exists>m1 m2.
     shiftIntensiveQuantityCache sampleCache 1 = Inr m1
     \<and> resizeAndResetIntensiveQuantitiesCache m1 6 0 = Inr m2
     \<and> cachedIntensiveQuantities m2 5 1 = Inr None"
proof -
  have "wellFormed sampleCache"
    by (simp add: sampleCache_def wellFormed_def)
  moreover have "historySize sampleCache = 2"
    by (simp add: sampleCache_def)
  ultimately show ?thesis
    using shift_then_resize_invalidates [where m = sampleCache and n = 6 and dflt = 0]
    by fastforce
qed

section \<open>Properties of the residual assembly\<close>

lemma accumulated_refl: "blocks numEq d \<Longrightarrow> accumulated numEq d d (\<lambda>i eqIdx. 0)"
  by (simp add: accumulated_def)

lemma accumulated_trans:
  "accumulated numEq d d1 f \<Longrightarrow> accumulated numEq d1 d2 g \<Longrightarrow>
   accumulated numEq d d2 (\<lambda>i eqIdx. f i eqIdx + g i eqIdx)"
  by (simp add: accumulated_def)

lemma nth_addBlock:
  "eqIdx < numEq \<Longrightarrow> addBlock numEq d r ! eqIdx = d ! eqIdx + r ! eqIdx"
  by (simp add: addBlock_def)

lemma length_addBlock: "length (addBlock numEq d r) = numEq"
  by (simp add: addBlock_def)

lemma blocks_update:
  "blocks numEq v \<Longrightarrow> length b = numEq \<Longrightarrow> blocks numEq (v[k := b])"
  by (auto simp add: blocks_def list_all_iff dest: set_update_subset_insert [THEN subsetD])

lemma addDof_accumulated:
  assumes wf: "wellFormedElement numEq (length dest) elem"
    and idx: "0 \<le> dofIdx" "dofIdx < numPrimaryDof elem"
    and shape: "blocks numEq dest"
  shows "\<exists>d'. addDof numEq elem dofIdx dest = Inr d'
           \<and> accumulated numEq dest d' (\<lambda>i eqIdx. dofContribution elem i eqIdx dofIdx)"
proof -
  define globalI where "globalI = globalSpaceIndex elem ! nat dofIdx"
  define r where "r = residual elem ! nat dofIdx"
  define d' where "d' = dest[nat globalI := addBlock numEq (dest ! nat globalI) r]"
  have k: "nat dofIdx < length (globalSpaceIndex elem)"
    using idx by (simp add: numPrimaryDof_def)
  have r1: "inRange (globalSpaceIndex elem) dofIdx"
    using idx by (simp add: inRange_def numPrimaryDof_def)
  have r2: "inRange (residual elem) dofIdx"
    using idx wf by (simp add: inRange_def numPrimaryDof_def wellFormedElement_def)
  have g: "0 \<le> globalI" "globalI < int (length dest)"
    using wf k by (simp_all add: wellFormedElement_def list_all_length globalI_def)
  then have r3: "inRange dest globalI"
    by (simp add: inRange_def)
  have run: "addDof numEq elem dofIdx dest = Inr d'"
    using r1 r2 r3
    by (simp add: addDof_def elemAt_inRange assign_inRange globalI_def r_def d'_def)
  have shape': "blocks numEq d'"
    using shape by (simp add: d'_def blocks_update length_addBlock)
  have entry: "d' ! i ! eqIdx = dest ! i ! eqIdx + dofContribution elem (int i) eqIdx dofIdx"
    if "i < length dest" "eqIdx < numEq" for i eqIdx
  proof (cases "i = nat globalI")
    case True
    then have "int i = globalI"
      using g by simp
    then show ?thesis
      using that True
      by (simp add: d'_def nth_addBlock dofContribution_def globalI_def r_def)
  next
    case False
    then have "int i \<noteq> globalI"
      by auto
    then show ?thesis
      using False by (simp add: d'_def dofContribution_def globalI_def)
  qed
  show ?thesis
    using run shape' entry by (simp add: accumulated_def d'_def)
qed

lemma forEach_addDof_accumulated:
  assumes "wellFormedElement numEq (length dest) elem"
    and "\<forall>dofIdx \<in> set dofs. 0 \<le> dofIdx \<and> dofIdx < numPrimaryDof elem"
    and "blocks numEq dest"
  shows "\<exists>d'. forEach (addDof numEq elem) dofs dest = Inr d'
           \<and> accumulated numEq dest d'
                (\<lambda>i eqIdx. sum_list (map (dofContribution elem i eqIdx) dofs))"
  using assms
proof (induction dofs arbitrary: dest)
  case Nil
  then show ?case by (simp add: accumulated_refl)
next
  case (Cons dofIdx dofs)
  then obtain d1 where d1: "addDof numEq elem dofIdx dest = Inr d1"
    "accumulated numEq dest d1 (\<lambda>i eqIdx. dofContribution elem i eqIdx dofIdx)"
    using addDof_accumulated [of numEq dest elem dofIdx] by auto
  then have "wellFormedElement numEq (length d1) elem" and "blocks numEq d1"
    using Cons.prems(1) by (simp_all add: accumulated_def)
  then obtain d' where d': "forEach (addDof numEq elem) dofs d1 = Inr d'"
    "accumulated numEq d1 d' (\<lambda>i eqIdx. sum_list (map (dofContribution elem i eqIdx) dofs))"
    using Cons.IH [of d1] Cons.prems(2) by auto
  show ?case
    using d1(1) d' accumulated_trans [OF d1(2) d'(2)] by simp
qed

lemma addElement_accumulated:
  assumes "partitionType elem \<noteq> InteriorEntity \<or> wellFormedElement numEq (length dest) elem"
    and "blocks numEq dest"
  shows "\<exists>d'. addElement numEq elem dest = Inr d'
           \<and> accumulated numEq dest d' (elementContribution elem)"
proof (cases "partitionType elem = InteriorEntity")
  case False
  then have "elementContribution elem = (\<lambda>i eqIdx. 0)"
    by (simp add: elementContribution_def fun_eq_iff)
  then show ?thesis
    using False assms(2) by (simp add: addElement_def accumulated_refl)
next
  case True
  then have wf: "wellFormedElement numEq (length dest) elem"
    using assms(1) by simp
  have "\<forall>dofIdx \<in> set [0 .. numPrimaryDof elem - 1]. 0 \<le> dofIdx \<and> dofIdx < numPrimaryDof elem"
    by auto
  then obtain d' where "forEach (addDof numEq elem) [0 .. numPrimaryDof elem - 1] dest = Inr d'"
    "accumulated numEq dest d'
       (\<lambda>i eqIdx. sum_list (map (dofContribution elem i eqIdx) [0 .. numPrimaryDof elem - 1]))"
    using forEach_addDof_accumulated [OF wf _ assms(2)] by blast
  moreover have "elementContribution elem
      = (\<lambda>i eqIdx. sum_list (map (dofContribution elem i eqIdx) [0 .. numPrimaryDof elem - 1]))"
    using True by (simp add: elementContribution_def fun_eq_iff)
  ultimately show ?thesis
    using True by (simp add: addElement_def)
qed

lemma forEach_addElement_accumulated:
  assumes "wellFormedElements numEq (length dest) elems" and "blocks numEq dest"
  shows "\<exists>d'. forEach (addElement numEq) elems dest = Inr d'
           \<and> accumulated numEq dest d' (contributions elems)"
  using assms
proof (induction elems arbitrary: dest)
  case Nil
  have "contributions [] = (\<lambda>i eqIdx. 0)"
    by (simp add: contributions_def fun_eq_iff)
  then show ?case
    using Nil by (simp add: accumulated_refl)
next
  case (Cons elem elems)
  then obtain d1 where d1: "addElement numEq elem dest = Inr d1"
    "accumulated numEq dest d1 (elementContribution elem)"
    using addElement_accumulated [of elem numEq dest] by (auto simp add: wellFormedElements_def)
  then have "wellFormedElements numEq (length d1) elems" and "blocks numEq d1"
    using Cons.prems(1) by (simp_all add: accumulated_def wellFormedElements_def)
  then obtain d' where d': "forEach (addElement numEq) elems d1 = Inr d'"
    "accumulated numEq d1 d' (contributions elems)"
    using Cons.IH [of d1] by auto
  have "contributions (elem # elems)
      = (\<lambda>i eqIdx. elementContribution elem i eqIdx + contributions elems i eqIdx)"
    by (simp add: contributions_def fun_eq_iff)
  then show ?case
    using d1(1) d' accumulated_trans [OF d1(2) d'(2)] by simp
qed

lemma forEach_skips:
  "forEach (addElement numEq) (filter (\<lambda>elem. partitionType elem = InteriorEntity) elems) dest
     = forEach (addElement numEq) elems dest"
proof (induction elems arbitrary: dest)
  case Nil
  show ?case by simp
next
  case (Cons elem elems)
  show ?case
  proof (cases "partitionType elem = InteriorEntity")
    case True
    then show ?thesis
      using Cons.IH by (simp split: sum.split)
  next
    case False
    then show ?thesis
      using Cons.IH by (simp add: addElement_def)
  qed
qed

lemma assignZero_shape:
  assumes "map length dest' = map length dest"
  shows "assignZero dest' = assignZero dest"
proof -
  have "assignZero d = map (\<lambda>n. replicate n 0) (map length d)" for d
    by (simp add: assignZero_def map_replicate_const)
  then show ?thesis
    by (simp only: assms)
qed

lemma assignZero_blocks: "blocks numEq dest \<Longrightarrow> blocks numEq (assignZero dest)"
  by (simp add: blocks_def assignZero_def list_all_iff)

lemma assignZero_nth:
  "blocks numEq dest \<Longrightarrow> i < length dest \<Longrightarrow> eqIdx < numEq \<Longrightarrow> assignZero dest ! i ! eqIdx = 0"
  by (simp add: blocks_def assignZero_def list_all_length)

text \<open>
  C9: the zeroing and the element loop of \<open>globalResidual\<close>. The result does not depend
  on what \<open>dest\<close> held before (two vectors of the same sizes give the same result), the
  elements that are not interior are skipped (leaving them out of the grid gives the same
  result), and for well-formed interior elements the loop succeeds and every entry of the
  result is the sum of the local residual entries that the interior elements hold for it.
\<close>

theorem assembleResidual_accumulates:
  "(map length dest' = map length dest \<longrightarrow>
      assembleResidual numEq elems dest' = assembleResidual numEq elems dest)
   \<and> assembleResidual numEq (filter (\<lambda>elem. partitionType elem = InteriorEntity) elems) dest
       = assembleResidual numEq elems dest
   \<and> (wellFormedElements numEq (length dest) elems \<and> blocks numEq dest \<longrightarrow>
        (\<exists>d. assembleResidual numEq elems dest = Inr d
           \<and> length d = length dest
           \<and> (\<forall>i < length dest. length (d ! i) = numEq
                \<and> (\<forall>eqIdx < numEq. d ! i ! eqIdx = contributions elems (int i) eqIdx))))"
proof (intro conjI impI)
  assume "map length dest' = map length dest"
  then show "assembleResidual numEq elems dest' = assembleResidual numEq elems dest"
    using assignZero_shape [of dest' dest] by (simp add: assembleResidual_def)
next
  show "assembleResidual numEq (filter (\<lambda>elem. partitionType elem = InteriorEntity) elems) dest
       = assembleResidual numEq elems dest"
    by (simp add: assembleResidual_def forEach_skips)
next
  assume a: "wellFormedElements numEq (length dest) elems \<and> blocks numEq dest"
  have len: "length (assignZero dest) = length dest"
    by (simp add: assignZero_def)
  obtain d where d: "forEach (addElement numEq) elems (assignZero dest) = Inr d"
    "accumulated numEq (assignZero dest) d (contributions elems)"
    using forEach_addElement_accumulated [of numEq "assignZero dest" elems] a
    by (auto simp add: len assignZero_blocks)
  have "length (d ! i) = numEq" if "i < length dest" for i
    using d(2) that by (simp add: accumulated_def blocks_def list_all_length len)
  moreover have "d ! i ! eqIdx = contributions elems (int i) eqIdx"
    if "i < length dest" "eqIdx < numEq" for i eqIdx
  proof -
    have "assignZero dest ! i ! eqIdx = 0"
      using a that assignZero_nth [of numEq dest i eqIdx] by simp
    then show ?thesis
      using d(2) that by (simp add: accumulated_def len)
  qed
  ultimately show "\<exists>d. assembleResidual numEq elems dest = Inr d
           \<and> length d = length dest
           \<and> (\<forall>i < length dest. length (d ! i) = numEq
                \<and> (\<forall>eqIdx < numEq. d ! i ! eqIdx = contributions elems (int i) eqIdx))"
    using d by (simp add: assembleResidual_def accumulated_def len)
qed

theorem assembleResidual_accumulates_witness:
  "assembleResidual 1 [firstElement InteriorEntity, secondElement GhostEntity] [[7], [8], [9]]
     = assembleResidual 1 [firstElement InteriorEntity, secondElement GhostEntity] [[5], [5], [5]]
   \<and> (\<exists>d. assembleResidual 1 [firstElement InteriorEntity, secondElement GhostEntity]
              [[5], [5], [5]] = Inr d
         \<and> length d = 3
         \<and> (\<forall>i < 3. length (d ! i) = 1
              \<and> d ! i ! 0 = contributions
                    [firstElement InteriorEntity, secondElement GhostEntity] (int i) 0))"
proof -
  have "wellFormedElements 1 (length [[5], [5], [5 :: real]])
          [firstElement InteriorEntity, secondElement GhostEntity]
        \<and> blocks 1 [[5], [5], [5]]"
    by (simp add: wellFormedElements_def wellFormedElement_def blocks_def firstElement_def
        secondElement_def)
  moreover have "map length [[7], [8], [9 :: real]] = map length [[5], [5], [5 :: real]]"
    by simp
  ultimately show ?thesis
    using assembleResidual_accumulates
      [where numEq = 1 and dest = "[[5], [5], [5]]" and dest' = "[[7], [8], [9]]"
         and elems = "[firstElement InteriorEntity, secondElement GhostEntity]"]
    by (simp add: numeral_3_eq_3)
qed


text \<open>The element loop on the sample grid, on each process and on the whole grid.\<close>

lemma assemble_first:
  "assembleResidual 1 [firstElement InteriorEntity, secondElement GhostEntity] [[5], [5], [5]]
     = Inr [[2], [1], [0]]"
  by (simp add: assembleResidual_def assignZero_def addElement_def addDof_def addBlock_def
      firstElement_def secondElement_def numPrimaryDof_def elemAt_def assign_def inRange_def
      upto_rec1)

lemma assemble_second:
  "assembleResidual 1 [firstElement GhostEntity, secondElement InteriorEntity] [[5], [5], [5]]
     = Inr [[0], [1], [1]]"
  by (simp add: assembleResidual_def assignZero_def addElement_def addDof_def addBlock_def
      firstElement_def secondElement_def numPrimaryDof_def elemAt_def assign_def inRange_def
      upto_rec1)

lemma assemble_whole:
  "assembleResidual 1 [firstElement InteriorEntity, secondElement InteriorEntity] [[5], [5], [5]]
     = Inr [[2], [2], [1]]"
  by (simp add: assembleResidual_def assignZero_def addElement_def addDof_def addBlock_def
      firstElement_def secondElement_def numPrimaryDof_def elemAt_def assign_def inRange_def
      upto_rec1)

lemma sqrt_nine: "sqrt 9 = 3"
  using real_sqrt_abs [of 3] by simp

text \<open>
  C1 on the sample grid: the run on one process returns 3, the Euclidean norm of the
  residual (2, 2, 1). The run on two processes leaves the summed value 2 of the border
  vertex in the vectors of both processes, so the sum of the two squared norms is
  \<open>8 + 5 = 13\<close> and the returned scalar is \<open>sqrt 13\<close>: the border vertex is counted
  once for every process.
\<close>

theorem globalResidual_counts_border_twice:
  "globalResidual 1 onePartition = Inr ([[[2], [2], [1]]], 3)
   \<and> globalResidual 1 twoPartitions = Inr ([[[2], [2], [0]], [[0], [2], [1]]], sqrt 13)
   \<and> sqrt 13 \<noteq> 3"
proof (intro conjI)
  show "globalResidual 1 onePartition = Inr ([[[2], [2], [1]]], 3)"
    by (simp add: globalResidual_def onePartition_def assemble_whole communicateSum_def
        two_norm2_def sqrt_nine del: One_nat_def)
  show "globalResidual 1 twoPartitions = Inr ([[[2], [2], [0]], [[0], [2], [1]]], sqrt 13)"
    by (simp add: globalResidual_def twoPartitions_def assemble_first assemble_second
        communicateSum_def received_def borderValues_def addBlock_def two_norm2_def
        upt_rec [of 0] upt_rec [of 1] del: One_nat_def)
  show "sqrt 13 \<noteq> 3"
  proof
    assume "sqrt 13 = 3"
    then have "sqrt 13 = sqrt 9"
      by (simp add: sqrt_nine)
    then show False
      by (simp only: real_sqrt_eq_iff)
  qed
qed

end
